theory Spec2Isabelle
  imports Main
begin

section \<open>Strings: the functions of Go's \<open>strings\<close> package that \<open>cmd/rango/rango.go\<close> calls\<close>

text \<open>
  A Go string is a sequence of bytes, here a \<open>string\<close> (a list of \<open>char\<close>, each a byte).

  \<open>strings.HasPrefix(s, prefix)\<close> is
  \<^verbatim>\<open>len(s) >= len(prefix) && s[:len(prefix)] == prefix\<close>.
\<close>

definition HasPrefix :: "string \<Rightarrow> string \<Rightarrow> bool" where
  "HasPrefix s pre = (length pre \<le> length s \<and> take (length pre) s = pre)"

text \<open>\<open>strings.TrimPrefix(s, prefix)\<close> returns \<open>s[len(prefix):]\<close> when \<open>s\<close> has the prefix, else \<open>s\<close>.\<close>

definition TrimPrefix :: "string \<Rightarrow> string \<Rightarrow> string" where
  "TrimPrefix s pre = (if HasPrefix s pre then drop (length pre) s else s)"

text \<open>
  \<open>strings.Split(s, sep)\<close>, for the one-byte separators the program passes (\<open>"="\<close> and
  \<open>","\<close>): the library loops on \<open>strings.Index\<close>, appending \<open>s[:i]\<close> and continuing with
  \<open>s[i+1:]\<close>, and appends the remainder when the separator no longer occurs. The result
  is never empty: \<open>Split("", ",")\<close> is \<open>[""]\<close>.
\<close>

function Split :: "string \<Rightarrow> char \<Rightarrow> string list" where
  "Split s sep =
     (case dropWhile (\<lambda>c. c \<noteq> sep) s of
        [] \<Rightarrow> [s]
      | _ # rest \<Rightarrow> takeWhile (\<lambda>c. c \<noteq> sep) s # Split rest sep)"
  by pat_completeness auto
termination
proof (relation "measure (\<lambda>(s, sep). length s)")
  show "wf (measure (\<lambda>(s, sep). length s))" by simp
next
  fix s :: string and sep x21 x22
  assume "dropWhile (\<lambda>c. c \<noteq> sep) s = x21 # x22"
  then have "length (x21 # x22) \<le> length s"
    by (metis length_dropWhile_le)
  then show "((x22, sep), (s, sep)) \<in> measure (\<lambda>(s, sep). length s)"
    by simp
qed

declare Split.simps [simp del]

text \<open>
  \<open>strings.ToLower\<close> on ASCII: the bytes \<open>A\<close> to \<open>Z\<close> are moved to \<open>a\<close> to \<open>z\<close>, every other
  byte is kept. (The library also lowers non-ASCII letters, rune by rune; the role names
  considered here are ASCII.)
\<close>

definition toLower_byte :: "char \<Rightarrow> char" where
  "toLower_byte c =
     (if 65 \<le> (of_char c :: nat) \<and> (of_char c :: nat) \<le> 90
      then char_of ((of_char c :: nat) + 32) else c)"

definition toUpper_byte :: "char \<Rightarrow> char" where
  "toUpper_byte c =
     (if 97 \<le> (of_char c :: nat) \<and> (of_char c :: nat) \<le> 122
      then char_of ((of_char c :: nat) - 32) else c)"

definition ToLower :: "string \<Rightarrow> string" where
  "ToLower s = map toLower_byte s"

section \<open>The environment\<close>

text \<open>
  \<open>os.Environ()\<close> is a list of records \<open>"NAME=value"\<close>. \<open>os.LookupEnv(name)\<close> finds the
  first record of that name; \<open>os.Getenv(name)\<close> is its value, or \<open>""\<close> when there is none.
\<close>

fun LookupEnv :: "string list \<Rightarrow> string \<Rightarrow> string option" where
  "LookupEnv [] name = None"
| "LookupEnv (r # envs) name =
     (if HasPrefix r (name @ ''='') then Some (drop (length name + 1) r)
      else LookupEnv envs name)"

definition Getenv :: "string list \<Rightarrow> string \<Rightarrow> string" where
  "Getenv envs name = (case LookupEnv envs name of None \<Rightarrow> [] | Some v \<Rightarrow> v)"

text \<open>\<open>getEnv(name, value)\<close>: the variable, or the default when it is unset or empty.\<close>

definition getEnv :: "string list \<Rightarrow> string \<Rightarrow> string \<Rightarrow> string" where
  "getEnv envs name val = (let v = Getenv envs name in if v = [] then val else v)"

section \<open>The Access Matrix: \<open>filterPrefixed\<close>, \<open>envToMatrix\<close>, \<open>getRBACConfig\<close>\<close>

text \<open>A run-time panic of the Go program: an index out of range, or an explicit \<open>panic(err)\<close>.\<close>

datatype panic = IndexOutOfRange nat nat | PanicError string

text \<open>\<open>filterPrefixed\<close> keeps, in order, the records that have the prefix.\<close>

fun filterPrefixed :: "string \<Rightarrow> string list \<Rightarrow> string list" where
  "filterPrefixed pre [] = []"
| "filterPrefixed pre (r # arr) =
     (if HasPrefix r pre then r # filterPrefixed pre arr else filterPrefixed pre arr)"

text \<open>
  The loop of \<open>envToMatrix\<close>, with the map built so far. \<open>kv[0]\<close> always exists, since
  \<open>Split\<close> never returns an empty list; \<open>kv[1]\<close> panics when the record has no \<open>=\<close>.
\<close>

fun envToMatrix_loop ::
  "string list \<Rightarrow> string \<Rightarrow> (string \<rightharpoonup> string list) \<Rightarrow> panic + (string \<rightharpoonup> string list)" where
  "envToMatrix_loop [] trimPrefix matr = Inr matr"
| "envToMatrix_loop (r # env) trimPrefix matr =
     (let kv = Split r CHR ''=''
      in if length kv \<le> 1 then Inl (IndexOutOfRange 1 (length kv))
         else
           let key = ToLower (TrimPrefix (kv ! 0) trimPrefix);
               val = Split (kv ! 1) CHR '',''
           in envToMatrix_loop env trimPrefix (matr(key \<mapsto> val)))"

definition envToMatrix :: "string list \<Rightarrow> string \<Rightarrow> panic + (string \<rightharpoonup> string list)" where
  "envToMatrix env trimPrefix = envToMatrix_loop env trimPrefix Map.empty"

definition getRBACConfig :: "string list \<Rightarrow> panic + (string \<rightharpoonup> string list)" where
  "getRBACConfig envs =
     (let rbacEnv = filterPrefixed ''RANGO_RBAC_'' envs
      in envToMatrix rbacEnv ''RANGO_RBAC_'')"

text \<open>
  What survives of a comma-separated pattern list when the text is cut at the first
  \<open>e\<close>: the patterns before the one that holds \<open>e\<close> are kept, that pattern is cut
  at \<open>e\<close>, and every later pattern is gone. (Stated from the property of the value of a
  record with a second \<open>=\<close>, to compare with what \<open>envToMatrix\<close> stores.)
\<close>

fun keep_before :: "char \<Rightarrow> string list \<Rightarrow> string list" where
  "keep_before e [] = []"
| "keep_before e (p # ps) =
     (if e \<in> set p then [takeWhile (\<lambda>c. c \<noteq> e) p] else p # keep_before e ps)"

section \<open>HTTP requests and their headers\<close>

text \<open>
  \<open>http.Header\<close> is a map from canonical header names to lists of values; \<open>Get\<close>,
  \<open>Set\<close> and \<open>Del\<close> canonicalise the name they are given with
  \<open>textproto.CanonicalMIMEHeaderKey\<close>: when every byte is a valid header-field byte, the
  first letter and each letter after a hyphen are made upper case and the others lower
  case (\<open>JwtUID\<close> becomes \<open>Jwtuid\<close>); otherwise the name is left as it is.
\<close>

definition validHeaderFieldByte :: "char \<Rightarrow> bool" where
  "validHeaderFieldByte c =
     (let n = (of_char c :: nat)
      in (48 \<le> n \<and> n \<le> 57) \<or> (65 \<le> n \<and> n \<le> 90) \<or> (97 \<le> n \<and> n \<le> 122)
         \<or> n \<in> set [33, 35, 36, 37, 38, 39, 42, 43, 45, 46, 94, 95, 96, 124, 126])"

fun canonicalMIMEHeaderKey :: "bool \<Rightarrow> string \<Rightarrow> string" where
  "canonicalMIMEHeaderKey upper [] = []"
| "canonicalMIMEHeaderKey upper (c # a) =
     (let c' = (if upper then toUpper_byte c else toLower_byte c)
      in c' # canonicalMIMEHeaderKey (c' = CHR ''-'') a)"

definition CanonicalMIMEHeaderKey :: "string \<Rightarrow> string" where
  "CanonicalMIMEHeaderKey s =
     (if list_all validHeaderFieldByte s then canonicalMIMEHeaderKey True s else s)"

type_synonym Header = "string \<rightharpoonup> string list"

definition Header_Get :: "Header \<Rightarrow> string \<Rightarrow> string" where
  "Header_Get h key =
     (case h (CanonicalMIMEHeaderKey key) of
        None \<Rightarrow> []
      | Some [] \<Rightarrow> []
      | Some (v # _) \<Rightarrow> v)"

definition Header_Set :: "Header \<Rightarrow> string \<Rightarrow> string \<Rightarrow> Header" where
  "Header_Set h key v = h(CanonicalMIMEHeaderKey key \<mapsto> [v])"

definition Header_Del :: "Header \<Rightarrow> string \<Rightarrow> Header" where
  "Header_Del h key = h(CanonicalMIMEHeaderKey key := None)"

record Request =
  URL_Path :: string
  Header :: Header

text \<open>
  The response writer records the status written, if any; \<open>WriteHeader\<close> after a status
  has been written changes nothing.
\<close>

record ResponseWriter =
  statusCode :: "nat option"

definition WriteHeader :: "ResponseWriter \<Rightarrow> nat \<Rightarrow> ResponseWriter" where
  "WriteHeader w code =
     (case statusCode w of None \<Rightarrow> w\<lparr>statusCode := Some code\<rparr> | Some _ \<Rightarrow> w)"

definition StatusUnauthorized :: nat where
  "StatusUnauthorized = 401"

definition StatusNotFound :: nat where
  "StatusNotFound = 404"

section \<open>Authentication: \<open>token\<close> and \<open>authHandler\<close>\<close>

definition prefix :: string where
  "prefix = ''Bearer ''"

definition token :: "Request \<Rightarrow> string" where
  "token r =
     (let authHeader = Header_Get (Header r) ''Authorization''
      in if \<not> HasPrefix authHeader prefix then []
         else drop (length prefix) authHeader)"

text \<open>
  The claims of a validated token, and the public key. \<open>auth.ParseAndValidate\<close> belongs
  to package \<open>pkg/auth\<close> and is a parameter here: a function from the token and the key to
  an error (\<open>Inl\<close>) or the claims (\<open>Inr\<close>).
\<close>

record Auth =
  UID :: string
  Role :: string

record rsa_PublicKey =
  N :: int
  E :: int

text \<open>
  A handler acts on the hub (where \<open>routing.NewClient\<close> registers the session it creates)
  and on the response writer, and is given the request.
\<close>

type_synonym 'h httpHanlder = "'h \<times> ResponseWriter \<Rightarrow> Request \<Rightarrow> 'h \<times> ResponseWriter"

definition authHandler ::
  "(string \<Rightarrow> rsa_PublicKey \<Rightarrow> string + Auth) \<Rightarrow> 'h httpHanlder \<Rightarrow> rsa_PublicKey \<Rightarrow> bool
     \<Rightarrow> 'h httpHanlder" where
  "authHandler ParseAndValidate h key mustAuth = (\<lambda>(hub, w) r.
     (case ParseAndValidate (token r) key of
        Inl err \<Rightarrow>
          if mustAuth then (hub, WriteHeader w StatusUnauthorized)
          else h (hub, w)
                 (r\<lparr>Header := Header_Del (Header_Del (Header r) ''JwtUID'') ''JwtRole''\<rparr>)
      | Inr auth \<Rightarrow>
          h (hub, w)
            (r\<lparr>Header :=
                 Header_Set (Header_Set (Header r) ''JwtUID'' (UID auth)) ''JwtRole'' (Role auth)\<rparr>)))"

section \<open>The endpoints registered by \<open>main\<close>\<close>

text \<open>
  \<open>wsHandler\<close> calls \<open>routing.NewClient(hub, w, r)\<close>, of package \<open>pkg/routing\<close>: a
  parameter here.
\<close>

definition wsHandler ::
  "('h \<Rightarrow> ResponseWriter \<Rightarrow> Request \<Rightarrow> 'h \<times> ResponseWriter) \<Rightarrow> 'h httpHanlder" where
  "wsHandler NewClient = (\<lambda>(hub, w) r. NewClient hub w r)"

definition handlers ::
  "(string \<Rightarrow> rsa_PublicKey \<Rightarrow> string + Auth)
     \<Rightarrow> ('h \<Rightarrow> ResponseWriter \<Rightarrow> Request \<Rightarrow> 'h \<times> ResponseWriter)
     \<Rightarrow> rsa_PublicKey \<Rightarrow> (string \<times> 'h httpHanlder) list" where
  "handlers ParseAndValidate NewClient pub =
     [(''/private'', authHandler ParseAndValidate (wsHandler NewClient) pub True),
      (''/public'', authHandler ParseAndValidate (wsHandler NewClient) pub False),
      (''/'', authHandler ParseAndValidate (wsHandler NewClient) pub False)]"

text \<open>
  \<open>http.ServeMux\<close>: a path that is a registered pattern gets that pattern's handler;
  otherwise the longest registered pattern ending in \<open>/\<close> that is a prefix of the path
  wins. (The redirect of a path that is not in canonical form is left out.)
\<close>

fun ServeMux_es ::
  "(string \<times> 'a) list \<Rightarrow> string \<Rightarrow> (string \<times> 'a) option \<Rightarrow> (string \<times> 'a) option" where
  "ServeMux_es [] path best = best"
| "ServeMux_es ((p, h) # es) path best =
     (if p \<noteq> [] \<and> last p = CHR ''/'' \<and> HasPrefix path p
         \<and> (case best of None \<Rightarrow> True | Some (q, _) \<Rightarrow> length q < length p)
      then ServeMux_es es path (Some (p, h))
      else ServeMux_es es path best)"

definition ServeMux_match :: "(string \<times> 'a) list \<Rightarrow> string \<Rightarrow> 'a option" where
  "ServeMux_match entries path =
     (case map_of entries path of
        Some h \<Rightarrow> Some h
      | None \<Rightarrow> map_option snd (ServeMux_es entries path None))"

definition ServeHTTP ::
  "(string \<Rightarrow> rsa_PublicKey \<Rightarrow> string + Auth)
     \<Rightarrow> ('h \<Rightarrow> ResponseWriter \<Rightarrow> Request \<Rightarrow> 'h \<times> ResponseWriter)
     \<Rightarrow> rsa_PublicKey \<Rightarrow> 'h httpHanlder" where
  "ServeHTTP ParseAndValidate NewClient pub = (\<lambda>(hub, w) r.
     (case ServeMux_match (handlers ParseAndValidate NewClient pub) (URL_Path r) of
        None \<Rightarrow> (hub, WriteHeader w StatusNotFound)
      | Some h \<Rightarrow> h (hub, w) r))"

section \<open>Flags and start-up configuration\<close>

record Flags =
  wsAddr :: string
  pubKey :: string
  exName :: string

text \<open>The values of the flags when the command line sets none.\<close>

definition default_flags :: Flags where
  "default_flags = \<lparr>wsAddr = [], pubKey = ''config/rsa-key.pub'', exName = ''rango.events''\<rparr>"

text \<open>
  \<open>setupLogger\<close>: \<open>zerolog.ParseLevel\<close> is a parameter; an error from it is a panic.
\<close>

datatype zerolog_Level =
  DebugLevel | InfoLevel | WarnLevel | ErrorLevel | FatalLevel | PanicLevel | NoLevel
  | Disabled | TraceLevel

definition setupLogger ::
  "(string \<Rightarrow> string + zerolog_Level) \<Rightarrow> string list \<Rightarrow> panic + zerolog_Level" where
  "setupLogger ParseLevel envs =
     (case LookupEnv envs ''LOG_LEVEL'' of
        Some logLevel \<Rightarrow>
          (case ParseLevel (ToLower logLevel) of
             Inl err \<Rightarrow> Inl (PanicError err)
           | Inr level \<Rightarrow> Inr level)
      | None \<Rightarrow> Inr DebugLevel)"

text \<open>
  \<open>auth.KeyStore\<close> and its two loaders belong to package \<open>pkg/auth\<close>. A loader is a
  parameter here: from the key store and its argument to the key store afterwards and the
  error it returns, if any.
\<close>

record KeyStore =
  PublicKey :: "rsa_PublicKey option"

type_synonym loader = "KeyStore \<Rightarrow> string \<Rightarrow> KeyStore \<times> string option"

text \<open>
  \<open>getPublicKey\<close>. The named result \<open>err\<close> starts as nil; the calls of the loaders are
  statements, so what they return is dropped and \<open>err\<close> is still nil at its test.
\<close>

definition getPublicKey ::
  "loader \<Rightarrow> loader \<Rightarrow> string list \<Rightarrow> Flags \<Rightarrow> string + rsa_PublicKey" where
  "getPublicKey LoadPublicKeyFromString LoadPublicKeyFromFile envs flags =
     (let err = (None :: string option);
          ks = \<lparr>PublicKey = None\<rparr>;
          encPem = Getenv envs ''JWT_PUBLIC_KEY'';
          ks = (if encPem \<noteq> [] then fst (LoadPublicKeyFromString ks encPem)
                else fst (LoadPublicKeyFromFile ks (pubKey flags)))
      in case err of
           Some e \<Rightarrow> Inl e
         | None \<Rightarrow>
             (case PublicKey ks of
                None \<Rightarrow> Inl ''failed''
              | Some k \<Rightarrow> Inr k))"

definition getServerAddress :: "string list \<Rightarrow> Flags \<Rightarrow> string" where
  "getServerAddress envs flags =
     (if wsAddr flags \<noteq> [] then wsAddr flags
      else
        let host = getEnv envs ''RANGER_HOST'' ''0.0.0.0'';
            port = getEnv envs ''RANGER_PORT'' ''8080''
        in host @ '':'' @ port)"

section \<open>The upstream consumer and the ingest loop\<close>

datatype kgo_Opt =
  SeedBrokers "string list"
| ConsumerGroup string
| ConsumeTopics string
| DisableAutoCommit

definition kgo_options :: "string list \<Rightarrow> Flags \<Rightarrow> string \<Rightarrow> kgo_Opt list" where
  "kgo_options envs flags uuid =
     (let kafkaBrokers = Split (Getenv envs ''KAFKA_BROKERS'') CHR '',''
      in [SeedBrokers kafkaBrokers,
          ConsumerGroup (''rango-'' @ uuid),
          ConsumeTopics (exName flags),
          DisableAutoCommit])"

record kgo_Record =
  Topic :: string
  Key :: string
  Val :: string
  Partition :: int
  Offset :: int

text \<open>
  What one \<open>PollFetches\<close> returns: the messages of its errors (\<open>fe.Err\<close> of each
  \<open>FetchError\<close>) and its records.
\<close>

record Fetches =
  Errors :: "string list"
  Records :: "kgo_Record list"

text \<open>
  The effects of the program on the world around it, in the order they happen: log
  calls, \<open>time.Sleep\<close> (in milliseconds), the start of a goroutine, and the calls of the
  ingest loop on the consumer client and on the hub.
\<close>

datatype goroutine = IngestLoop | ListenWebsocketEvents | MetricsServer

datatype effect =
  LogError string
| LogInfo string
| LogDebug string
| LogFatal string
| Sleep nat
| Go goroutine
| PollFetches
| ReceiveMsg kgo_Record
| CommitRecords kgo_Record

text \<open>Decimal digits of a number, for \<open>%d\<close>.\<close>

fun itoa :: "nat \<Rightarrow> string" where
  "itoa n = (if n < 10 then [char_of (48 + n)] else itoa (n div 10) @ [char_of (48 + n mod 10)])"

declare itoa.simps [simp del]

fun log_fetch_errors :: "nat \<Rightarrow> string list \<Rightarrow> effect list" where
  "log_fetch_errors i [] = []"
| "log_fetch_errors i (fe # fes) =
     LogError (''Fetch error '' @ itoa i @ '': '' @ fe) # log_fetch_errors (Suc i) fes"

fun handle_records :: "kgo_Record list \<Rightarrow> effect list" where
  "handle_records [] = []"
| "handle_records (r # records) = ReceiveMsg r # CommitRecords r # handle_records records"

text \<open>
  One turn of the \<open>for\<close> loop of the ingest goroutine. The state is the number of polls
  made so far and the effects so far; \<open>polls i\<close> is what poll number \<open>i\<close> returns.
\<close>

definition ingest_body :: "(nat \<Rightarrow> Fetches) \<Rightarrow> nat \<times> effect list \<Rightarrow> nat \<times> effect list" where
  "ingest_body polls = (\<lambda>(i, effects).
     (let fetches = polls i
      in (Suc i,
          effects @ [PollFetches] @ log_fetch_errors 0 (Errors fetches)
            @ handle_records (Records fetches))))"

text \<open>The loop has no exit: \<open>for { ... }\<close> with no \<open>break\<close> and no \<open>return\<close>.\<close>

partial_function (option) ingest_loop ::
  "(nat \<Rightarrow> Fetches) \<Rightarrow> nat \<times> effect list \<Rightarrow> unit option" where
  "ingest_loop polls s = ingest_loop polls (ingest_body polls s)"

text \<open>The effects of the first \<open>n\<close> turns of the loop.\<close>

definition ingest_effects :: "(nat \<Rightarrow> Fetches) \<Rightarrow> nat \<Rightarrow> effect list" where
  "ingest_effects polls n = snd ((ingest_body polls ^^ n) (0, []))"

section \<open>\<open>main\<close>\<close>

text \<open>
  What \<open>main\<close> takes from outside the program: \<open>zerolog.ParseLevel\<close>, the loaders of the
  key store, \<open>uuid.NewString()\<close>, the error of \<open>kgo.NewClient\<close> for a list of options
  (if any), and the error with which \<open>http.ListenAndServe\<close> returns for an address
  (\<open>None\<close> when it serves and does not return).
\<close>

record Extern =
  zerolog_ParseLevel :: "string \<Rightarrow> string + zerolog_Level"
  ks_LoadPublicKeyFromString :: loader
  ks_LoadPublicKeyFromFile :: loader
  uuid_NewString :: string
  kgo_NewClient :: "kgo_Opt list \<Rightarrow> string option"
  http_ListenAndServe :: "string \<Rightarrow> string option"

text \<open>
  How the process ends: with an exit code, or not at all (\<open>Serving\<close>). Returning from
  \<open>main\<close> is exit code 0; \<open>log.Fatal().Msg\<close> calls \<open>os.Exit(1)\<close>; a panic that nothing
  recovers ends the process with code 2.
\<close>

datatype outcome = Exit nat | Serving

definition main :: "Extern \<Rightarrow> string list \<Rightarrow> Flags \<Rightarrow> effect list \<times> outcome" where
  "main ext envs flags =
     (case setupLogger (zerolog_ParseLevel ext) envs of
        Inl p \<Rightarrow> ([], Exit 2)
      | Inr level \<Rightarrow>
     (case getRBACConfig envs of
        Inl p \<Rightarrow> ([], Exit 2)
      | Inr rbac \<Rightarrow>
     (case getPublicKey (ks_LoadPublicKeyFromString ext) (ks_LoadPublicKeyFromFile ext) envs flags of
        Inl err \<Rightarrow>
          ([LogError (''Loading public key failed: '' @ err), Sleep 2000], Exit 0)
      | Inr pub \<Rightarrow>
     (case kgo_NewClient ext (kgo_options envs flags (uuid_NewString ext)) of
        Some err \<Rightarrow> ([LogError (''Failed to create consumer: '' @ err)], Exit 0)
      | None \<Rightarrow>
          (let started =
                 [LogInfo ''Starting rango...'', Go IngestLoop, Go ListenWebsocketEvents,
                  Go MetricsServer,
                  LogDebug (''Listenning on '' @ getServerAddress envs flags)]
           in case http_ListenAndServe ext (getServerAddress envs flags) of
                Some err \<Rightarrow>
                  (started @ [LogFatal (''ListenAndServe failed: '' @ err)], Exit 1)
              | None \<Rightarrow> (started, Serving))))))"

section \<open>Concrete inputs\<close>

text \<open>
  A token validator that accepts one token, a \<open>NewClient\<close> that records the principal of
  the session it creates in the hub (here the list of the principals of its sessions) and
  answers the upgrade with 101, a key, two loaders, and the outside of \<open>main\<close>.
\<close>

definition example_ParseAndValidate :: "string \<Rightarrow> rsa_PublicKey \<Rightarrow> string + Auth" where
  "example_ParseAndValidate tok key =
     (if tok = ''alice-token'' then Inr \<lparr>UID = ''alice'', Role = ''trader''\<rparr>
      else Inl ''token is invalid'')"

definition example_NewClient ::
  "(string \<times> string) list \<Rightarrow> ResponseWriter \<Rightarrow> Request
     \<Rightarrow> (string \<times> string) list \<times> ResponseWriter" where
  "example_NewClient hub w r =
     ((Header_Get (Header r) ''JwtUID'', Header_Get (Header r) ''JwtRole'') # hub,
      WriteHeader w 101)"

definition example_key :: rsa_PublicKey where
  "example_key = \<lparr>N = 3233, E = 17\<rparr>"

definition example_loader_fails :: loader where
  "example_loader_fails ks s = (ks, Some ''no public key found'')"

definition example_loader_ok :: loader where
  "example_loader_ok ks s = (ks\<lparr>PublicKey := Some example_key\<rparr>, None)"

definition example_extern :: Extern where
  "example_extern =
     \<lparr>zerolog_ParseLevel = (\<lambda>s. if s = ''info'' then Inr InfoLevel else Inl ''Unknown Level String''),
      ks_LoadPublicKeyFromString = example_loader_ok,
      ks_LoadPublicKeyFromFile = example_loader_fails,
      uuid_NewString = ''0000'',
      kgo_NewClient = (\<lambda>opts. None),
      http_ListenAndServe = (\<lambda>addr. None)\<rparr>"

text \<open>Polls of the upstream bus: the first returns an error, each later one a record.\<close>

definition example_record :: "nat \<Rightarrow> kgo_Record" where
  "example_record i =
     \<lparr>Topic = ''rango.events'', Key = ''eurusd.trades'', Val = ''{}'', Partition = 0, Offset = int i\<rparr>"

definition example_polls :: "nat \<Rightarrow> Fetches" where
  "example_polls i =
     (if i = 0 then \<lparr>Errors = [''broker unreachable''], Records = []\<rparr>
      else \<lparr>Errors = [], Records = [example_record i]\<rparr>)"

section \<open>Admission: the three endpoints\<close>

lemma canon_JwtUID: "CanonicalMIMEHeaderKey ''JwtUID'' = ''Jwtuid''" by code_simp
lemma canon_JwtRole: "CanonicalMIMEHeaderKey ''JwtRole'' = ''Jwtrole''" by code_simp
lemma canon_Authorization: "CanonicalMIMEHeaderKey ''Authorization'' = ''Authorization''" by code_simp

lemma match_private:
  "ServeMux_match (handlers PV NC pub) ''/private'' = Some (authHandler PV (wsHandler NC) pub True)"
  by (simp add: ServeMux_match_def handlers_def)


text \<open>
  C1. On \<open>/private\<close>, a request whose token is not validated gets status 401 and nothing
  else happens: the result is the same whatever the wrapped handler and \<open>NewClient\<close> are,
  so neither is invoked, and the hub is unchanged (no session is created).
\<close>

theorem private_requires_valid_token:
  assumes "ParseAndValidate (token r) pub = Inl err"
    and "URL_Path r = ''/private''"
    and "statusCode w = None"
  shows "authHandler ParseAndValidate h pub True (hub, w) r = (hub, w\<lparr>statusCode := Some 401\<rparr>)
    \<and> ServeHTTP ParseAndValidate NewClient pub (hub, w) r = (hub, w\<lparr>statusCode := Some 401\<rparr>)"
  using assms
  by (simp add: ServeHTTP_def match_private authHandler_def WriteHeader_def StatusUnauthorized_def)

theorem private_requires_valid_token_witness:
  "example_ParseAndValidate (token \<lparr>URL_Path = ''/private'', Header = Map.empty\<rparr>) example_key = Inl ''token is invalid''
   \<and> ServeHTTP example_ParseAndValidate example_NewClient example_key ([], \<lparr>statusCode = None\<rparr>)
        \<lparr>URL_Path = ''/private'', Header = Map.empty\<rparr> = ([], \<lparr>statusCode = Some 401\<rparr>)"
proof -
  have t: "token \<lparr>URL_Path = ''/private'', Header = Map.empty\<rparr> = []"
    by (simp add: token_def Header_Get_def HasPrefix_def prefix_def)
  have v: "example_ParseAndValidate (token \<lparr>URL_Path = ''/private'', Header = Map.empty\<rparr>) example_key
      = Inl ''token is invalid''"
    by (simp add: t example_ParseAndValidate_def)
  show ?thesis
    using v private_requires_valid_token
      [where ParseAndValidate = example_ParseAndValidate and pub = example_key
         and r = "\<lparr>URL_Path = ''/private'', Header = Map.empty\<rparr>" and err = "''token is invalid''"
         and w = "\<lparr>statusCode = None\<rparr>" and hub = "[]" and NewClient = example_NewClient]
    by simp
qed




lemma canon_distinct: "CanonicalMIMEHeaderKey ''JwtRole'' \<noteq> CanonicalMIMEHeaderKey ''JwtUID''"
  by (simp add: canon_JwtUID canon_JwtRole)

lemma Get_after_Set:
  "Header_Get (Header_Set (Header_Set hdr ''JwtUID'' u) ''JwtRole'' ro) ''JwtUID'' = u"
  "Header_Get (Header_Set (Header_Set hdr ''JwtUID'' u) ''JwtRole'' ro) ''JwtRole'' = ro"
  by (simp_all add: Header_Get_def Header_Set_def canon_JwtUID canon_JwtRole)

lemma Get_after_Del:
  "Header_Get (Header_Del (Header_Del hdr ''JwtUID'') ''JwtRole'') ''JwtUID'' = []"
  "Header_Get (Header_Del (Header_Del hdr ''JwtUID'') ''JwtRole'') ''JwtRole'' = []"
  by (simp_all add: Header_Get_def Header_Del_def canon_JwtUID canon_JwtRole)

lemma authHandler_observed:
  "authHandler ParseAndValidate
      (\<lambda>s r. obs s (Header_Get (Header r) ''JwtUID'') (Header_Get (Header r) ''JwtRole''))
      pub mustAuth (hub, w) r
    = (case ParseAndValidate (token r) pub of
         Inl err \<Rightarrow> if mustAuth then (hub, WriteHeader w StatusUnauthorized) else obs (hub, w) [] []
       | Inr auth \<Rightarrow> obs (hub, w) (UID auth) (Role auth))"
  by (simp add: authHandler_def Get_after_Set Get_after_Del split: sum.splits)

text \<open>
  C8. What a wrapped handler reads from the headers \<open>JwtUID\<close> and \<open>JwtRole\<close> depends on the
  request only through the validation of its \<open>Authorization\<close> header: two requests with
  the same \<open>Authorization\<close> header give the same result, for any handler \<open>obs\<close> that reads
  those two headers, and the values read are those of the validated token, or empty.
\<close>

theorem jwt_headers_from_validation_only:
  assumes "Header_Get (Header r1) ''Authorization'' = Header_Get (Header r2) ''Authorization''"
  shows "authHandler ParseAndValidate
      (\<lambda>s r. obs s (Header_Get (Header r) ''JwtUID'') (Header_Get (Header r) ''JwtRole''))
      pub mustAuth (hub, w) r1
    = authHandler ParseAndValidate
      (\<lambda>s r. obs s (Header_Get (Header r) ''JwtUID'') (Header_Get (Header r) ''JwtRole''))
      pub mustAuth (hub, w) r2
   \<and> authHandler ParseAndValidate
      (\<lambda>s r. obs s (Header_Get (Header r) ''JwtUID'') (Header_Get (Header r) ''JwtRole''))
      pub mustAuth (hub, w) r1
    = (case ParseAndValidate (token r1) pub of
         Inl err \<Rightarrow> if mustAuth then (hub, WriteHeader w StatusUnauthorized) else obs (hub, w) [] []
       | Inr auth \<Rightarrow> obs (hub, w) (UID auth) (Role auth))"
proof -
  have "token r1 = token r2" using assms by (simp add: token_def)
  then show ?thesis by (simp add: authHandler_observed)
qed

theorem jwt_headers_from_validation_only_witness:
  "Header_Get (Header \<lparr>URL_Path = ''/public'',
        Header = [''Authorization'' \<mapsto> [''Bearer alice-token''], ''Jwtuid'' \<mapsto> [''admin''],
                  ''Jwtrole'' \<mapsto> [''superuser'']]\<rparr>) ''Authorization''
     = Header_Get (Header \<lparr>URL_Path = ''/public'',
        Header = [''Authorization'' \<mapsto> [''Bearer alice-token'']]\<rparr>) ''Authorization''
   \<and> authHandler example_ParseAndValidate
        (\<lambda>s r. ((Header_Get (Header r) ''JwtUID'', Header_Get (Header r) ''JwtRole''), snd s))
        example_key False ((''nobody'', ''none''), \<lparr>statusCode = None\<rparr>)
        \<lparr>URL_Path = ''/public'',
          Header = [''Authorization'' \<mapsto> [''Bearer alice-token''], ''Jwtuid'' \<mapsto> [''admin''],
                    ''Jwtrole'' \<mapsto> [''superuser'']]\<rparr>
      = ((''alice'', ''trader''), \<lparr>statusCode = None\<rparr>)"
proof -
  let ?h1 = "[''Authorization'' \<mapsto> [''Bearer alice-token''], ''Jwtuid'' \<mapsto> [''admin''],
              ''Jwtrole'' \<mapsto> [''superuser'']]"
  let ?h2 = "[''Authorization'' \<mapsto> [''Bearer alice-token'']]"
  have a: "Header_Get (Header \<lparr>URL_Path = ''/public'', Header = ?h1\<rparr>) ''Authorization''
      = Header_Get (Header \<lparr>URL_Path = ''/public'', Header = ?h2\<rparr>) ''Authorization''"
    by (simp add: Header_Get_def canon_Authorization)
  have t: "token \<lparr>URL_Path = ''/public'', Header = ?h1\<rparr> = ''alice-token''"
    by (simp add: token_def Header_Get_def canon_Authorization HasPrefix_def prefix_def)
  note inst = jwt_headers_from_validation_only [OF a, where ParseAndValidate = example_ParseAndValidate
        and obs = "\<lambda>s u ro. ((u, ro), snd s)" and pub = example_key and mustAuth = False
        and hub = "(''nobody'', ''none'')" and w = "\<lparr>statusCode = None\<rparr>"]
  have v: "authHandler example_ParseAndValidate
        (\<lambda>s r. ((Header_Get (Header r) ''JwtUID'', Header_Get (Header r) ''JwtRole''), snd s))
        example_key False ((''nobody'', ''none''), \<lparr>statusCode = None\<rparr>)
        \<lparr>URL_Path = ''/public'', Header = ?h1\<rparr>
      = ((''alice'', ''trader''), \<lparr>statusCode = None\<rparr>)"
    using inst [THEN conjunct2] by (simp add: t example_ParseAndValidate_def)
  from a v show ?thesis by simp
qed

section \<open>The ingest loop\<close>

lemma ingest_loop_None: "ingest_loop polls s = None"
proof (cases "ingest_loop polls s")
  case None
  then show ?thesis .
next
  case (Some y)
  have False
    by (rule ingest_loop.raw_induct [where P = "\<lambda>_ _ _. False", OF _ Some]) blast
  then show ?thesis ..
qed

lemma ingest_body_fst: "fst ((ingest_body polls ^^ n) s) = fst s + n"
  by (induction n) (simp_all add: ingest_body_def split_def Let_def)

lemma ingest_effects_0: "ingest_effects polls 0 = []"
  by (simp add: ingest_effects_def)

lemma ingest_effects_Suc:
  "ingest_effects polls (Suc n)
     = ingest_effects polls n @ [PollFetches] @ log_fetch_errors 0 (Errors (polls n))
         @ handle_records (Records (polls n))"
proof -
  have "fst ((ingest_body polls ^^ n) (0, [])) = n"
    by (simp add: ingest_body_fst)
  then show ?thesis
    by (simp add: ingest_effects_def ingest_body_def split_def Let_def)
qed

lemma log_fetch_errors_set: "e \<in> set (log_fetch_errors i fes) \<Longrightarrow> \<exists>m. e = LogError m"
  by (induction fes arbitrary: i) auto

lemma handle_records_set:
  "e \<in> set (handle_records rs) \<Longrightarrow> (\<exists>r. e = ReceiveMsg r) \<or> (\<exists>r. e = CommitRecords r)"
  by (induction rs) auto

lemma ingest_no_Sleep: "Sleep d \<notin> set (ingest_effects polls n)"
proof (induction n)
  case 0
  show ?case by (simp add: ingest_effects_0)
next
  case (Suc n)
  have "Sleep d \<notin> set (log_fetch_errors 0 (Errors (polls n)))"
    using log_fetch_errors_set by blast
  moreover have "Sleep d \<notin> set (handle_records (Records (polls n)))"
    using handle_records_set by blast
  ultimately show ?case using Suc by (simp add: ingest_effects_Suc)
qed

lemma filter_Poll_log: "filter (\<lambda>e. e = PollFetches) (log_fetch_errors i fes) = []"
  by (induction fes arbitrary: i) auto

lemma filter_Poll_records: "filter (\<lambda>e. e = PollFetches) (handle_records rs) = []"
  by (induction rs) auto

lemma ingest_poll_count: "length (filter (\<lambda>e. e = PollFetches) (ingest_effects polls n)) = n"
  by (induction n) (simp_all add: ingest_effects_0 ingest_effects_Suc filter_Poll_log filter_Poll_records)

lemma log_fetch_errors_nth:
  "j < length fes \<Longrightarrow>
     LogError (''Fetch error '' @ itoa (i + j) @ '': '' @ fes ! j) \<in> set (log_fetch_errors i fes)"
proof (induction fes arbitrary: i j)
  case Nil
  then show ?case by simp
next
  case (Cons fe fes)
  show ?case
  proof (cases j)
    case 0
    then show ?thesis by simp
  next
    case (Suc j')
    then have "j' < length fes" using Cons.prems by simp
    from Cons.IH [OF this, of "Suc i"] Suc show ?thesis by simp
  qed
qed

lemma ingest_effects_mono: "i \<le> n \<Longrightarrow> set (ingest_effects polls i) \<subseteq> set (ingest_effects polls n)"
proof (induction n)
  case 0
  then show ?case by simp
next
  case (Suc n)
  show ?case
  proof (cases "i = Suc n")
    case True
    then show ?thesis by simp
  next
    case False
    then have "i \<le> n" using Suc.prems by simp
    then have "set (ingest_effects polls i) \<subseteq> set (ingest_effects polls n)" by (rule Suc.IH)
    then show ?thesis by (auto simp add: ingest_effects_Suc)
  qed
qed

lemma ingest_errors_logged:
  assumes "i < n" "j < length (Errors (polls i))"
  shows "LogError (''Fetch error '' @ itoa j @ '': '' @ Errors (polls i) ! j) \<in> set (ingest_effects polls n)"
proof -
  have "LogError (''Fetch error '' @ itoa (0 + j) @ '': '' @ Errors (polls i) ! j)
      \<in> set (log_fetch_errors 0 (Errors (polls i)))"
    using assms(2) by (rule log_fetch_errors_nth)
  then have "LogError (''Fetch error '' @ itoa j @ '': '' @ Errors (polls i) ! j)
      \<in> set (ingest_effects polls (Suc i))"
    by (simp add: ingest_effects_Suc)
  moreover have "set (ingest_effects polls (Suc i)) \<subseteq> set (ingest_effects polls n)"
    using assms(1) by (intro ingest_effects_mono) simp
  ultimately show ?thesis by blast
qed

text \<open>
  C3, as amended. The ingest loop never returns, whatever the polls return; a fetch
  error is logged, with its index in the fetch, and the loop goes on to the records of the
  fetch and to the next poll: every turn makes one poll, and no turn sleeps.
\<close>

theorem fetch_errors_logged_without_backoff:
  "ingest_loop polls s = None
   \<and> (\<forall>d. Sleep d \<notin> set (ingest_effects polls n))
   \<and> length (filter (\<lambda>e. e = PollFetches) (ingest_effects polls n)) = n
   \<and> (\<forall>i j. i < n \<longrightarrow> j < length (Errors (polls i)) \<longrightarrow>
        LogError (''Fetch error '' @ itoa j @ '': '' @ Errors (polls i) ! j)
          \<in> set (ingest_effects polls n))
   \<and> ingest_effects polls (Suc n)
       = ingest_effects polls n @ [PollFetches] @ log_fetch_errors 0 (Errors (polls n))
           @ handle_records (Records (polls n))"
  using ingest_loop_None ingest_no_Sleep ingest_poll_count ingest_errors_logged ingest_effects_Suc
  by blast

theorem fetch_errors_logged_without_backoff_witness:
  "(0::nat) < 2 \<and> 0 < length (Errors (example_polls 0))
   \<and> LogError (''Fetch error '' @ itoa 0 @ '': '' @ Errors (example_polls 0) ! 0)
        \<in> set (ingest_effects example_polls 2)
   \<and> ingest_loop example_polls (0, []) = None"
proof -
  have a: "(0::nat) < 2" by simp
  have b: "0 < length (Errors (example_polls 0))" by (simp add: example_polls_def)
  note inst = fetch_errors_logged_without_backoff [where polls = example_polls and n = 2 and s = "(0, [])"]
  from inst have "ingest_loop example_polls (0, []) = None" by blast
  moreover from inst a b have "LogError (''Fetch error '' @ itoa 0 @ '': '' @ Errors (example_polls 0) ! 0)
        \<in> set (ingest_effects example_polls 2)" by blast
  ultimately show ?thesis using a b by blast
qed

lemma example_effects:
  "ingest_effects example_polls 2
     = [PollFetches, LogError ''Fetch error 0: broker unreachable'', PollFetches,
        ReceiveMsg (example_record 1), CommitRecords (example_record 1)]"
  by code_simp

text \<open>
  C3 as stated fails: after a fetch with an error, the next poll follows the log line at
  once; the loop has no wait of 250 ms, or of any length.
\<close>

theorem no_backoff_after_fetch_error:
  "ingest_effects example_polls 2
     = [PollFetches, LogError ''Fetch error 0: broker unreachable'', PollFetches,
        ReceiveMsg (example_record 1), CommitRecords (example_record 1)]
   \<and> \<not> (\<exists>d. Sleep d \<in> set (ingest_effects example_polls 2))"
  by (simp add: example_effects)

lemma follows_append:
  assumes a: "\<forall>k r. k < length a \<longrightarrow> a ! k = CommitRecords r \<longrightarrow> 0 < k \<and> a ! (k - 1) = ReceiveMsg r"
    and b: "\<forall>k r. k < length b \<longrightarrow> b ! k = CommitRecords r \<longrightarrow> 0 < k \<and> b ! (k - 1) = ReceiveMsg r"
  shows "\<forall>k r. k < length (a @ b) \<longrightarrow> (a @ b) ! k = CommitRecords r
           \<longrightarrow> 0 < k \<and> (a @ b) ! (k - 1) = ReceiveMsg r"
proof (intro allI impI)
  fix k r
  assume k: "k < length (a @ b)" and c: "(a @ b) ! k = CommitRecords r"
  show "0 < k \<and> (a @ b) ! (k - 1) = ReceiveMsg r"
  proof (cases "k < length a")
    case True
    then have "a ! k = CommitRecords r" using c by (simp add: nth_append)
    with a True have *: "0 < k \<and> a ! (k - 1) = ReceiveMsg r" by blast
    have "k - 1 < length a" using True by arith
    then have "(a @ b) ! (k - 1) = a ! (k - 1)" by (simp add: nth_append)
    with * show ?thesis by simp
  next
    case False
    let ?j = "k - length a"
    have j: "?j < length b" using k False by simp
    have "b ! ?j = CommitRecords r" using c False by (simp add: nth_append)
    with b j have *: "0 < ?j \<and> b ! (?j - 1) = ReceiveMsg r" by blast
    then have "\<not> k - 1 < length a" by arith
    moreover have "k - 1 - length a = ?j - 1" by arith
    ultimately have "(a @ b) ! (k - 1) = b ! (?j - 1)" by (simp add: nth_append)
    with * show ?thesis by auto
  qed
qed

lemma follows_log:
  "\<forall>k r. k < length (log_fetch_errors i fes) \<longrightarrow> log_fetch_errors i fes ! k = CommitRecords r
     \<longrightarrow> 0 < k \<and> log_fetch_errors i fes ! (k - 1) = ReceiveMsg r"
proof (intro allI impI)
  fix k r
  assume "k < length (log_fetch_errors i fes)" and c: "log_fetch_errors i fes ! k = CommitRecords r"
  then have "CommitRecords r \<in> set (log_fetch_errors i fes)" by (metis nth_mem)
  then show "0 < k \<and> log_fetch_errors i fes ! (k - 1) = ReceiveMsg r"
    using log_fetch_errors_set by blast
qed

lemma follows_records:
  "\<forall>k r. k < length (handle_records rs) \<longrightarrow> handle_records rs ! k = CommitRecords r
     \<longrightarrow> 0 < k \<and> handle_records rs ! (k - 1) = ReceiveMsg r"
proof (induction rs)
  case Nil
  show ?case by simp
next
  case (Cons x rs)
  have one: "\<forall>k r. k < length [ReceiveMsg x, CommitRecords x]
      \<longrightarrow> [ReceiveMsg x, CommitRecords x] ! k = CommitRecords r
      \<longrightarrow> 0 < k \<and> [ReceiveMsg x, CommitRecords x] ! (k - 1) = ReceiveMsg r"
    by (auto simp: less_Suc_eq nth_Cons')
  have "handle_records (x # rs) = [ReceiveMsg x, CommitRecords x] @ handle_records rs" by simp
  then show ?case using follows_append [OF one Cons.IH] by simp
qed

lemma follows_ingest:
  "\<forall>k r. k < length (ingest_effects polls n) \<longrightarrow> ingest_effects polls n ! k = CommitRecords r
     \<longrightarrow> 0 < k \<and> ingest_effects polls n ! (k - 1) = ReceiveMsg r"
proof (induction n)
  case 0
  show ?case by (simp add: ingest_effects_0)
next
  case (Suc n)
  have p: "\<forall>k r. k < length [PollFetches] \<longrightarrow> [PollFetches] ! k = CommitRecords r
      \<longrightarrow> 0 < k \<and> [PollFetches] ! (k - 1) = ReceiveMsg r"
    by simp
  show ?case
    unfolding ingest_effects_Suc
    by (intro follows_append Suc.IH p follows_log follows_records)
qed

lemma handle_records_pair:
  "r \<in> set rs \<Longrightarrow> \<exists>pre post. handle_records rs = pre @ [ReceiveMsg r, CommitRecords r] @ post"
proof (induction rs)
  case Nil
  then show ?case by simp
next
  case (Cons x rs)
  show ?case
  proof (cases "r = x")
    case True
    then have "handle_records (x # rs) = [] @ [ReceiveMsg r, CommitRecords r] @ handle_records rs"
      by simp
    then show ?thesis by blast
  next
    case False
    then have "r \<in> set rs" using Cons.prems by simp
    then obtain pre post where "handle_records rs = pre @ [ReceiveMsg r, CommitRecords r] @ post"
      using Cons.IH by blast
    then have "handle_records (x # rs)
        = (ReceiveMsg x # CommitRecords x # pre) @ [ReceiveMsg r, CommitRecords r] @ post"
      by simp
    then show ?thesis by blast
  qed
qed

lemma ingest_pair:
  assumes "i < n" "r \<in> set (Records (polls i))"
  shows "\<exists>pre post. ingest_effects polls n = pre @ [ReceiveMsg r, CommitRecords r] @ post"
  using assms(1)
proof (induction n)
  case 0
  then show ?case by simp
next
  case (Suc n)
  show ?case
  proof (cases "i = n")
    case True
    obtain pre post where "handle_records (Records (polls n)) = pre @ [ReceiveMsg r, CommitRecords r] @ post"
      using handle_records_pair assms(2) True by blast
    then have "ingest_effects polls (Suc n)
        = (ingest_effects polls n @ [PollFetches] @ log_fetch_errors 0 (Errors (polls n)) @ pre)
            @ [ReceiveMsg r, CommitRecords r] @ post"
      by (simp add: ingest_effects_Suc)
    then show ?thesis by blast
  next
    case False
    then have "i < n" using Suc.prems by simp
    then obtain pre post where "ingest_effects polls n = pre @ [ReceiveMsg r, CommitRecords r] @ post"
      using Suc.IH by blast
    then have "ingest_effects polls (Suc n)
        = pre @ [ReceiveMsg r, CommitRecords r]
            @ (post @ [PollFetches] @ log_fetch_errors 0 (Errors (polls n))
                 @ handle_records (Records (polls n)))"
      by (simp add: ingest_effects_Suc)
    then show ?thesis by blast
  qed
qed

text \<open>
  C5. In the effects of the ingest loop every \<open>CommitRecords r\<close> comes right after
  \<open>ReceiveMsg r\<close>, every record of every fetch is handed to the hub and then committed,
  and the options of the consumer client contain \<open>DisableAutoCommit\<close>.
\<close>

theorem commit_follows_handoff:
  "(\<forall>k r. k < length (ingest_effects polls n) \<longrightarrow> ingest_effects polls n ! k = CommitRecords r
       \<longrightarrow> 0 < k \<and> ingest_effects polls n ! (k - 1) = ReceiveMsg r)
   \<and> (\<forall>i r. i < n \<longrightarrow> r \<in> set (Records (polls i)) \<longrightarrow>
         (\<exists>pre post. ingest_effects polls n = pre @ [ReceiveMsg r, CommitRecords r] @ post))
   \<and> DisableAutoCommit \<in> set (kgo_options envs flags uuid)"
proof -
  have "DisableAutoCommit \<in> set (kgo_options envs flags uuid)"
    by (simp add: kgo_options_def Let_def)
  then show ?thesis using follows_ingest ingest_pair by blast
qed

theorem commit_follows_handoff_witness:
  "(4::nat) < length (ingest_effects example_polls 2)
   \<and> ingest_effects example_polls 2 ! 4 = CommitRecords (example_record 1)
   \<and> ingest_effects example_polls 2 ! (4 - 1) = ReceiveMsg (example_record 1)
   \<and> example_record 1 \<in> set (Records (example_polls 1))
   \<and> (\<exists>pre post. ingest_effects example_polls 2
         = pre @ [ReceiveMsg (example_record 1), CommitRecords (example_record 1)] @ post)"
proof -
  have a: "(4::nat) < length (ingest_effects example_polls 2)" by (simp add: example_effects)
  have b: "ingest_effects example_polls 2 ! 4 = CommitRecords (example_record 1)"
    by (simp add: example_effects)
  have c: "example_record 1 \<in> set (Records (example_polls 1))" by (simp add: example_polls_def)
  have d: "(1::nat) < 2" by simp
  note inst = commit_follows_handoff [where polls = example_polls and n = 2]
  from inst a b have "ingest_effects example_polls 2 ! (4 - 1) = ReceiveMsg (example_record 1)"
    by blast
  moreover from inst c d have "\<exists>pre post. ingest_effects example_polls 2
         = pre @ [ReceiveMsg (example_record 1), CommitRecords (example_record 1)] @ post"
    by blast
  ultimately show ?thesis using a b c by blast
qed

section \<open>The public key\<close>

text \<open>
  C7. With \<open>JWT_PUBLIC_KEY\<close> non-empty, the key comes from the string loader applied to its
  value, whatever the file loader and the flag are; with it empty, from the file loader
  applied to the flag \<open>pubKey\<close>, whose default is \<open>config/rsa-key.pub\<close>.
\<close>

theorem public_key_source:
  "(Getenv envs ''JWT_PUBLIC_KEY'' \<noteq> [] \<longrightarrow>
      getPublicKey loadString loadFile envs flags
        = (case PublicKey (fst (loadString \<lparr>PublicKey = None\<rparr> (Getenv envs ''JWT_PUBLIC_KEY''))) of
             None \<Rightarrow> Inl ''failed'' | Some k \<Rightarrow> Inr k))
   \<and> (Getenv envs ''JWT_PUBLIC_KEY'' = [] \<longrightarrow>
      getPublicKey loadString loadFile envs flags
        = (case PublicKey (fst (loadFile \<lparr>PublicKey = None\<rparr> (pubKey flags))) of
             None \<Rightarrow> Inl ''failed'' | Some k \<Rightarrow> Inr k))
   \<and> pubKey default_flags = ''config/rsa-key.pub''"
  by (simp add: getPublicKey_def default_flags_def)

theorem public_key_source_witness:
  "Getenv [''JWT_PUBLIC_KEY=PEM''] ''JWT_PUBLIC_KEY'' \<noteq> []
   \<and> getPublicKey example_loader_ok example_loader_fails [''JWT_PUBLIC_KEY=PEM''] default_flags = Inr example_key
   \<and> Getenv [''PATH=/bin''] ''JWT_PUBLIC_KEY'' = []
   \<and> getPublicKey example_loader_fails example_loader_ok [''PATH=/bin''] default_flags = Inr example_key"
proof -
  have a: "Getenv [''JWT_PUBLIC_KEY=PEM''] ''JWT_PUBLIC_KEY'' = ''PEM''" by code_simp
  have b: "Getenv [''PATH=/bin''] ''JWT_PUBLIC_KEY'' = []" by code_simp
  show ?thesis
    using public_key_source [of "[''JWT_PUBLIC_KEY=PEM'']" example_loader_ok example_loader_fails default_flags]
      public_key_source [of "[''PATH=/bin'']" example_loader_fails example_loader_ok default_flags]
    by (simp add: a b example_loader_ok_def)
qed

text \<open>
  C9. \<open>getPublicKey\<close> returns an error exactly when the key store has no public key after
  loading; the error is always \<open>failed\<close>, and what the loaders return as their error
  changes nothing.
\<close>

theorem public_key_error_iff_nil:
  "((\<exists>e. getPublicKey loadString loadFile envs flags = Inl e)
      = (PublicKey (if Getenv envs ''JWT_PUBLIC_KEY'' \<noteq> []
                    then fst (loadString \<lparr>PublicKey = None\<rparr> (Getenv envs ''JWT_PUBLIC_KEY''))
                    else fst (loadFile \<lparr>PublicKey = None\<rparr> (pubKey flags))) = None))
   \<and> (\<forall>e. getPublicKey loadString loadFile envs flags = Inl e \<longrightarrow> e = ''failed'')
   \<and> getPublicKey (\<lambda>ks s. (fst (loadString ks s), e1)) (\<lambda>ks s. (fst (loadFile ks s), e2)) envs flags
       = getPublicKey loadString loadFile envs flags"
  by (auto simp add: getPublicKey_def split: option.splits)

theorem public_key_error_iff_nil_witness:
  "(\<exists>e. getPublicKey example_loader_ok example_loader_fails [''PATH=/bin''] default_flags = Inl e)
   \<and> getPublicKey (\<lambda>ks s. (fst (example_loader_ok ks s), None))
        (\<lambda>ks s. (fst (example_loader_fails ks s), None)) [''PATH=/bin''] default_flags
     = Inl ''failed''"
proof -
  have b: "Getenv [''PATH=/bin''] ''JWT_PUBLIC_KEY'' = []" by code_simp
  have c: "getPublicKey example_loader_ok example_loader_fails [''PATH=/bin''] default_flags = Inl ''failed''"
    by (simp add: getPublicKey_def b example_loader_fails_def)
  show ?thesis
    using c public_key_error_iff_nil [of example_loader_ok example_loader_fails "[''PATH=/bin'']" default_flags None None]
    by simp
qed

section \<open>Exit codes\<close>

text \<open>
  C2. \<open>main\<close> at three start-up failures: with no public key, and with a consumer that
  cannot be created, it logs and returns, so the process ends with code 0; only the
  failure of \<open>ListenAndServe\<close> ends it with code 1.
\<close>

theorem startup_failure_exit_codes:
  "main example_extern [''PATH=/bin''] default_flags
     = ([LogError ''Loading public key failed: failed'', Sleep 2000], Exit 0)
   \<and> main (example_extern\<lparr>kgo_NewClient := (\<lambda>opts. Some ''no seed brokers'')\<rparr>)
        [''JWT_PUBLIC_KEY=PEM''] default_flags
     = ([LogError ''Failed to create consumer: no seed brokers''], Exit 0)
   \<and> snd (main (example_extern\<lparr>http_ListenAndServe := (\<lambda>addr. Some ''address already in use'')\<rparr>)
        [''JWT_PUBLIC_KEY=PEM''] default_flags) = Exit 1"
proof -
  have a: "Getenv [''JWT_PUBLIC_KEY=PEM''] ''JWT_PUBLIC_KEY'' = ''PEM''" by code_simp
  have b: "Getenv [''PATH=/bin''] ''JWT_PUBLIC_KEY'' = []" by code_simp
  have l: "\<And>pl. setupLogger pl [''PATH=/bin''] = Inr DebugLevel"
    "\<And>pl. setupLogger pl [''JWT_PUBLIC_KEY=PEM''] = Inr DebugLevel"
    by (simp_all add: setupLogger_def HasPrefix_def)
  have r: "getRBACConfig [''PATH=/bin''] = Inr Map.empty"
    "getRBACConfig [''JWT_PUBLIC_KEY=PEM''] = Inr Map.empty"
    by (simp_all add: getRBACConfig_def envToMatrix_def HasPrefix_def)
  have k1: "getPublicKey example_loader_ok example_loader_fails [''PATH=/bin''] default_flags = Inl ''failed''"
    by (simp add: getPublicKey_def b example_loader_fails_def)
  have k2: "getPublicKey example_loader_ok example_loader_fails [''JWT_PUBLIC_KEY=PEM''] default_flags = Inr example_key"
    by (simp add: getPublicKey_def a example_loader_ok_def)
  show ?thesis
    by (simp add: main_def l r example_extern_def k1 k2)
qed

end
